theory Spec2Isabelle
  imports Complex_Main "HOL-Library.Signed_Division" "HOL-Library.Multiset"
begin

section \<open>The convolution kernel of conv2dV1.cu\<close>

text \<open>
  The \<^verbatim>\<open>int\<close> variables of the program (\<^verbatim>\<open>H\<close>, \<^verbatim>\<open>W\<close>, \<^verbatim>\<open>R\<close>, \<^verbatim>\<open>row\<close>, \<^verbatim>\<open>col\<close>,
  the loop counters and the buffer indices) are integers of HOL, and \<^verbatim>\<open>/\<close> on them
  is the truncating division \<open>sdiv\<close>. Overflow is left out: \<^verbatim>\<open>readInput\<close> and
  \<^verbatim>\<open>readFilter\<close> hold the byte sizes \<open>4 * H * W\<close> and \<open>4 * R * R\<close> in an \<^verbatim>\<open>int\<close>, and
  for such sizes every value below stays under \<open>2^31\<close>. The \<^verbatim>\<open>float\<close> values are the
  elements of a type \<open>'a\<close> with \<open>0\<close>, \<open>+\<close> and \<open>*\<close>: rounding is not part of this
  development, and the theorems say which laws of arithmetic they need.

  A \<^verbatim>\<open>float*\<close> argument of the kernel is the list of the floats that lie behind the
  pointer: the \<open>H * W\<close> floats of the matrix, followed by whatever the device memory
  holds after them when the list is longer. C does not check an index: here a load or
  a store outside the list is a fault, and the kernel stops with it.
\<close>

subsection \<open>Buffers\<close>

datatype buffer = Input | Filter | Output

datatype fault = OutOfBounds buffer int

definition load :: "buffer \<Rightarrow> 'a list \<Rightarrow> int \<Rightarrow> fault + 'a" where
  "load b mem k =
     (if 0 \<le> k \<and> k < int (length mem) then Inr (mem ! nat k) else Inl (OutOfBounds b k))"

definition store :: "buffer \<Rightarrow> 'a list \<Rightarrow> int \<Rightarrow> 'a \<Rightarrow> fault + 'a list" where
  "store b mem k v =
     (if 0 \<le> k \<and> k < int (length mem) then Inr (mem[nat k := v]) else Inl (OutOfBounds b k))"

subsection \<open>Worker coordinates\<close>

text \<open>
  \<^verbatim>\<open>dim3\<close> and \<^verbatim>\<open>uint3\<close> of CUDA, with the two components the program uses
  (the third is 1 in the grid and in the block, and 0 in every index).
\<close>

record dim3 =
  dim_x :: nat
  dim_y :: nat

subsection \<open>conv2d_kernel\<close>

text \<open>
  The body of the two loops (lines 69 to 75): one tap of the filter, added to \<^verbatim>\<open>sum\<close>
  when the guard accepts it. The guard compares the column \<open>c\<close> with \<open>H\<close>, as line 71
  does.
\<close>

definition tap ::
  "'a::{plus,times} list \<Rightarrow> 'a list \<Rightarrow> int \<Rightarrow> int \<Rightarrow> int \<Rightarrow> int \<Rightarrow> int \<Rightarrow> int \<Rightarrow> int \<Rightarrow> int
     \<Rightarrow> 'a \<Rightarrow> fault + 'a" where
  "tap input filter' H W R pad row col i j sum_acc =
     (let r = row + i;
          c = col + j
      in if r \<ge> 0 \<and> r < H \<and> c \<ge> 0 \<and> c < H then
           (let filter_row = i + pad;
                filter_col = j + pad
            in case load Input input (r * W + c) of
                 Inl e \<Rightarrow> Inl e
               | Inr a \<Rightarrow>
                   (case load Filter filter' (filter_row * R + filter_col) of
                      Inl e \<Rightarrow> Inl e
                    | Inr f \<Rightarrow> Inr (sum_acc + a * f)))
         else Inr sum_acc)"

text \<open>
  A \<^verbatim>\<open>for\<close> loop over the values \<open>ks\<close> of its counter, in order, threading the
  accumulator and stopping at the first fault.
\<close>

fun for_loop :: "(int \<Rightarrow> 's \<Rightarrow> fault + 's) \<Rightarrow> int list \<Rightarrow> 's \<Rightarrow> fault + 's" where
  "for_loop body [] s = Inr s"
| "for_loop body (k # ks) s =
     (case body k s of Inl e \<Rightarrow> Inl e | Inr s' \<Rightarrow> for_loop body ks s')"

text \<open>Lines 65 to 77: the accumulation of one output element.\<close>

definition conv_sum ::
  "'a::{zero,plus,times} list \<Rightarrow> 'a list \<Rightarrow> int \<Rightarrow> int \<Rightarrow> int \<Rightarrow> int \<Rightarrow> int \<Rightarrow> fault + 'a" where
  "conv_sum input filter' H W R row col =
     (let pad = R sdiv 2
      in for_loop (\<lambda>i. for_loop (\<lambda>j. tap input filter' H W R pad row col i j) [- pad..pad])
           [- pad..pad] 0)"

text \<open>Lines 61 and 62: the coordinates of a worker.\<close>

definition worker_row :: "dim3 \<Rightarrow> dim3 \<Rightarrow> dim3 \<Rightarrow> int" where
  "worker_row blockIdx blockDim threadIdx =
     int (dim_y blockIdx * dim_y blockDim + dim_y threadIdx)"

definition worker_col :: "dim3 \<Rightarrow> dim3 \<Rightarrow> dim3 \<Rightarrow> int" where
  "worker_col blockIdx blockDim threadIdx =
     int (dim_x blockIdx * dim_x blockDim + dim_x threadIdx)"

text \<open>
  One worker. Its result is a fault, or the store it performs on \<^verbatim>\<open>output\<close>
  (index and value), or \<open>None\<close> when the guard of line 64 keeps it from doing anything.
\<close>

definition conv2d_kernel ::
  "dim3 \<Rightarrow> dim3 \<Rightarrow> dim3 \<Rightarrow> 'a::{zero,plus,times} list \<Rightarrow> 'a list \<Rightarrow> int \<Rightarrow> int \<Rightarrow> int
     \<Rightarrow> fault + (int \<times> 'a) option" where
  "conv2d_kernel blockIdx blockDim threadIdx input filter' H W R =
     (let row = worker_row blockIdx blockDim threadIdx;
          col = worker_col blockIdx blockDim threadIdx
      in if row < H \<and> col < W then
           (case conv_sum input filter' H W R row col of
              Inl e \<Rightarrow> Inl e
            | Inr sum_acc \<Rightarrow> Inr (Some (row * W + col, sum_acc)))
         else Inr None)"

subsection \<open>The launch\<close>

text \<open>
  Lines 159 and 160 of \<^verbatim>\<open>main\<close>: the block and the grid. The quotients are
  \<^verbatim>\<open>int\<close>s that \<^verbatim>\<open>dim3\<close> takes as \<^verbatim>\<open>unsigned\<close>; they are positive when \<open>H\<close> and
  \<open>W\<close> are.
\<close>

definition main_blockDim :: dim3 where
  "main_blockDim = \<lparr>dim_x = 16, dim_y = 16\<rparr>"

definition main_gridDim :: "int \<Rightarrow> int \<Rightarrow> dim3" where
  "main_gridDim H W = \<lparr>dim_x = nat ((W + 15) sdiv 16), dim_y = nat ((H + 15) sdiv 16)\<rparr>"

text \<open>
  The workers of a launch \<^verbatim>\<open><<<gridDim, blockDim>>>\<close>: every block index below the
  grid's dimensions with every thread index below the block's.
\<close>

definition indices :: "dim3 \<Rightarrow> dim3 list" where
  "indices d = [\<lparr>dim_x = ix, dim_y = iy\<rparr>. iy \<leftarrow> [0..<dim_y d], ix \<leftarrow> [0..<dim_x d]]"

definition workers :: "dim3 \<Rightarrow> dim3 \<Rightarrow> (dim3 \<times> dim3) list" where
  "workers gridDim blockDim = [(blockIdx, threadIdx).
     blockIdx \<leftarrow> indices gridDim, threadIdx \<leftarrow> indices blockDim]"

text \<open>
  A worker runs the kernel and performs its store on the output buffer. The device
  runs the workers in an order of its own: a launch is given the order as a list. A
  worker loads from \<^verbatim>\<open>input\<close> and \<^verbatim>\<open>filter\<close> only, which no worker changes, and
  stores once, so the steps of two workers do not need to be interleaved.
\<close>

definition run_worker ::
  "dim3 \<Rightarrow> 'a::{zero,plus,times} list \<Rightarrow> 'a list \<Rightarrow> int \<Rightarrow> int \<Rightarrow> int \<Rightarrow> dim3 \<times> dim3
     \<Rightarrow> 'a list \<Rightarrow> fault + 'a list" where
  "run_worker blockDim input filter' H W R w output =
     (case conv2d_kernel (fst w) blockDim (snd w) input filter' H W R of
        Inl e \<Rightarrow> Inl e
      | Inr None \<Rightarrow> Inr output
      | Inr (Some (k, v)) \<Rightarrow> store Output output k v)"

fun launch ::
  "dim3 \<Rightarrow> 'a::{zero,plus,times} list \<Rightarrow> 'a list \<Rightarrow> int \<Rightarrow> int \<Rightarrow> int \<Rightarrow> (dim3 \<times> dim3) list
     \<Rightarrow> 'a list \<Rightarrow> fault + 'a list" where
  "launch blockDim input filter' H W R [] output = Inr output"
| "launch blockDim input filter' H W R (w # ws) output =
     (case run_worker blockDim input filter' H W R w output of
        Inl e \<Rightarrow> Inl e
      | Inr output' \<Rightarrow> launch blockDim input filter' H W R ws output')"

subsection \<open>The contract of the specification\<close>

text \<open>
  The sum that section 4.1 of the specification gives for \<open>output[row, col]\<close>: a tap
  \<open>(i, j)\<close> counts when \<open>row + i\<close> is in \<open>[0, H)\<close> and \<open>col + j\<close> is in \<open>[0, W)\<close>.
\<close>

definition spec_conv ::
  "'a::{comm_monoid_add,times} list \<Rightarrow> 'a list \<Rightarrow> int \<Rightarrow> int \<Rightarrow> int \<Rightarrow> int \<Rightarrow> int \<Rightarrow> 'a" where
  "spec_conv input filter' H W R row col =
     (let pad = R div 2
      in (\<Sum>i\<leftarrow>[- pad..pad]. \<Sum>j\<leftarrow>[- pad..pad].
            (if 0 \<le> row + i \<and> row + i < H \<and> 0 \<le> col + j \<and> col + j < W
             then input ! nat ((row + i) * W + (col + j))
                    * filter' ! nat ((i + pad) * R + (j + pad))
             else 0)))"

text \<open>
  The results \<open>x\<close>, \<open>y\<close> and \<open>z\<close> of three runs are related by \<open>added\<close> when the
  three stop with the same fault, or \<open>z\<close> is the sum of \<open>x\<close> and \<open>y\<close>.
\<close>

definition added :: "fault + 'a::plus \<Rightarrow> fault + 'a \<Rightarrow> fault + 'a \<Rightarrow> bool" where
  "added x y z \<longleftrightarrow>
     (\<exists>e. x = Inl e \<and> y = Inl e \<and> z = Inl e)
   \<or> (\<exists>a b. x = Inr a \<and> y = Inr b \<and> z = Inr (a + b))"

subsection \<open>main\<close>

text \<open>
  The stages of \<^verbatim>\<open>main\<close> after the check of \<^verbatim>\<open>argc\<close>, in the order of the source
  (lines 96 to 238). A stage that fails prints a message on the standard error stream
  and ends the process with \<^verbatim>\<open>exit(EXIT_FAILURE)\<close>. Whether it fails, and with which
  message, is decided outside the program (the files, the CUDA runtime, \<^verbatim>\<open>malloc\<close>)
  and is an argument of the model. Writing the output and \<^verbatim>\<open>free\<close> have no check.
\<close>

datatype stage =
    ReadInput | ReadFilter | CheckHostBuffers
  | AllocDeviceInput | AllocDeviceFilter | AllocDeviceOutput
  | CopyInputToDevice | CopyFilterToDevice
  | LaunchKernel
  | AllocHostOutput | CopyOutputToHost | WriteOutput
  | FreeDeviceInput | FreeDeviceFilter | FreeDeviceOutput
  | FreeHostBuffers | ResetDevice

definition main_stages :: "stage list" where
  "main_stages =
     [ReadInput, ReadFilter, CheckHostBuffers,
      AllocDeviceInput, AllocDeviceFilter, AllocDeviceOutput,
      CopyInputToDevice, CopyFilterToDevice,
      LaunchKernel,
      AllocHostOutput, CopyOutputToHost, WriteOutput,
      FreeDeviceInput, FreeDeviceFilter, FreeDeviceOutput,
      FreeHostBuffers, ResetDevice]"

definition checked :: "stage \<Rightarrow> bool" where
  "checked s = (s \<noteq> WriteOutput \<and> s \<noteq> FreeHostBuffers)"

record outcome =
  performed :: "stage list"
  stderr :: "string list"
  exit_code :: int

definition EXIT_FAILURE :: int where
  "EXIT_FAILURE = 1"

fun run_stages :: "(stage \<Rightarrow> string option) \<Rightarrow> stage list \<Rightarrow> stage list \<Rightarrow> outcome" where
  "run_stages failure [] done = \<lparr>performed = done, stderr = [], exit_code = 0\<rparr>"
| "run_stages failure (s # ss) done =
     (case (if checked s then failure s else None) of
        None \<Rightarrow> run_stages failure ss (done @ [s])
      | Some message \<Rightarrow>
          \<lparr>performed = done @ [s], stderr = [message], exit_code = EXIT_FAILURE\<rparr>)"

text \<open>
  \<^verbatim>\<open>main\<close>, lines 85 to 88 and then the stages. \<^verbatim>\<open>argv\<close> holds the name of the
  program and the positional arguments, and \<^verbatim>\<open>argc\<close> is its length.
\<close>

definition main :: "string list \<Rightarrow> (stage \<Rightarrow> string option) \<Rightarrow> outcome" where
  "main argv failure =
     (let argc = int (length argv)
      in if argc < 3 then
           \<lparr>performed = [], stderr = [''ERROR: number of arguments < 3''], exit_code = - 1\<rparr>
         else run_stages failure main_stages [])"

text \<open>
  The status that the parent of the process sees: the low eight bits of the value that
  \<^verbatim>\<open>main\<close> returns or that \<^verbatim>\<open>exit\<close> is given.
\<close>

definition exit_status :: "outcome \<Rightarrow> int" where
  "exit_status out = exit_code out mod 256"

section \<open>Properties\<close>

subsection \<open>Loads and loops\<close>



subsection \<open>The column guard\<close>

text \<open>
  C1. The kernel's output at \<open>(row, col)\<close> is the sum of the taps whose row lies in
  \<open>[0, H)\<close> and whose column lies in \<open>[0, W)\<close>. The kernel compares the column with
  \<open>H\<close>: for the \<open>1 \<times> 2\<close> matrix \<open>[[1, 2]]\<close> and the \<open>3 \<times> 3\<close> filter of ones it
  stores \<open>1\<close> at \<open>(0, 0)\<close>, where the contract gives \<open>1 + 2 = 3\<close>; the tap at
  column 1 is inside the matrix and is dropped because \<open>1 < H\<close> fails.
\<close>

theorem column_guard_drops_tap:
  "conv2d_kernel \<lparr>dim_x = 0, dim_y = 0\<rparr> main_blockDim \<lparr>dim_x = 0, dim_y = 0\<rparr>
     [1, 2 :: real] (replicate 9 1) 1 2 3 = Inr (Some (0, 1))
   \<and> spec_conv [1, 2 :: real] (replicate 9 1) 1 2 3 0 0 = 3"
  by (simp add: conv2d_kernel_def worker_row_def worker_col_def main_blockDim_def
        conv_sum_def tap_def load_def spec_conv_def signed_divide_int_def upto_rec1)

text \<open>
  C2. With the \<open>1 \<times> 1\<close> filter \<open>[1]\<close> the output equals the input at every
  coordinate. For the \<open>1 \<times> 2\<close> matrix \<open>[[5, 7]]\<close> the worker of \<open>(0, 1)\<close> stores
  \<open>0\<close>, not \<open>7\<close>: its only tap has column \<open>1\<close>, which the guard compares with
  \<open>H = 1\<close>.
\<close>

theorem identity_filter_beyond_square:
  "conv2d_kernel \<lparr>dim_x = 0, dim_y = 0\<rparr> main_blockDim \<lparr>dim_x = 1, dim_y = 0\<rparr>
     [5, 7 :: real] [1] 1 2 1 = Inr (Some (1, 0))
   \<and> [5, 7 :: real] ! 1 = 7"
  by (simp add: conv2d_kernel_def worker_row_def worker_col_def main_blockDim_def
        conv_sum_def tap_def load_def signed_divide_int_def)

text \<open>
  C10. Every index that the kernel reads from the input lies in \<open>[0, H * W)\<close>. For
  the \<open>2 \<times> 1\<close> matrix \<open>[[1], [2]]\<close> and a \<open>3 \<times> 3\<close> filter the worker of \<open>(1, 0)\<close>
  accepts the tap \<open>r = 1\<close>, \<open>c = 1\<close>, since \<open>c < H\<close>, and reads \<open>input[1 * 1 + 1]\<close>:
  index \<open>2 = H * W\<close>, one past the last element.
\<close>

theorem input_read_past_end:
  "conv2d_kernel \<lparr>dim_x = 0, dim_y = 0\<rparr> main_blockDim \<lparr>dim_x = 0, dim_y = 1\<rparr>
     [1, 2 :: real] (replicate 9 1) 2 1 3 = Inl (OutOfBounds Input 2)"
  by (simp add: conv2d_kernel_def worker_row_def worker_col_def main_blockDim_def
        conv_sum_def tap_def load_def signed_divide_int_def upto_rec1)

subsection \<open>The filter of zeros\<close>





subsection \<open>The box blur of the specification\<close>

text \<open>
  C7, as the specification states it: for the matrix \<open>[[1,2,3],[4,5,6],[7,8,9]]\<close> and the
  \<open>3 \<times> 3\<close> filter of \<open>1/9\<close>, the output at the corner \<open>(0, 0)\<close> is the mean of the
  four values in range, \<open>(1 + 2 + 4 + 5) / 4 = 3\<close>. The kernel does not store that.
\<close>

theorem box_blur_corner_counterexample:
  "conv2d_kernel \<lparr>dim_x = 0, dim_y = 0\<rparr> main_blockDim \<lparr>dim_x = 0, dim_y = 0\<rparr>
     [1, 2, 3, 4, 5, 6, 7, 8, 9 :: real] (replicate 9 (1 / 9)) 3 3 3
   \<noteq> Inr (Some (0, (1 + 2 + 4 + 5) / 4))"
  by (simp add: conv2d_kernel_def worker_row_def worker_col_def main_blockDim_def
        conv_sum_def tap_def load_def signed_divide_int_def upto_rec1)

text \<open>
  C7, amended: the output at the centre \<open>(1, 1)\<close> is the mean of the nine values, 5, and
  the output at the corner \<open>(0, 0)\<close> is the sum of the four values in range times
  \<open>1/9\<close>, that is \<open>12/9\<close>: the taps outside the matrix count as zeros and the weights
  are not scaled up.
\<close>

theorem box_blur_example:
  "conv2d_kernel \<lparr>dim_x = 0, dim_y = 0\<rparr> main_blockDim \<lparr>dim_x = 1, dim_y = 1\<rparr>
     [1, 2, 3, 4, 5, 6, 7, 8, 9 :: real] (replicate 9 (1 / 9)) 3 3 3
   = Inr (Some (1 * 3 + 1, (1 + 2 + 3 + 4 + 5 + 6 + 7 + 8 + 9) / 9))
   \<and> (1 + 2 + 3 + 4 + 5 + 6 + 7 + 8 + 9) / 9 = (5 :: real)
   \<and> conv2d_kernel \<lparr>dim_x = 0, dim_y = 0\<rparr> main_blockDim \<lparr>dim_x = 0, dim_y = 0\<rparr>
     [1, 2, 3, 4, 5, 6, 7, 8, 9 :: real] (replicate 9 (1 / 9)) 3 3 3
   = Inr (Some (0 * 3 + 0, (1 + 2 + 4 + 5) / 9))"
  by (simp add: conv2d_kernel_def worker_row_def worker_col_def main_blockDim_def
        conv_sum_def tap_def load_def signed_divide_int_def upto_rec1)

subsection \<open>The guard of the worker\<close>




lemma index_in_matrix:
  fixes row col H W :: int
  assumes "0 \<le> row" "row < H" "0 \<le> col" "col < W"
  shows "0 \<le> row * W + col" and "row * W + col < H * W"
proof -
  show "0 \<le> row * W + col"
    using assms by simp
  have "row * W \<le> (H - 1) * W"
    using assms by (intro mult_right_mono) auto
  then show "row * W + col < H * W"
    using assms by (simp add: algebra_simps)
qed



subsection \<open>The grid\<close>

lemma sdiv_nonneg: "0 \<le> a \<Longrightarrow> 0 < b \<Longrightarrow> a sdiv b = a div (b::int)"
  by (simp add: signed_divide_int_def sgn_if)


lemma in_indices: "i \<in> set (indices d) \<longleftrightarrow> dim_x i < dim_x d \<and> dim_y i < dim_y d"
  by (cases i) (auto simp: indices_def image_iff)

lemma in_workers:
  "(bi, ti) \<in> set (workers g b) \<longleftrightarrow> bi \<in> set (indices g) \<and> ti \<in> set (indices b)"
  by (auto simp: workers_def)

lemma tile_index:
  fixes n N :: int
  assumes "0 \<le> n" "n < N"
  shows "nat n div 16 < nat ((N + 15) sdiv 16)"
proof -
  have "(N + 15) sdiv 16 = (N + 15) div 16"
    using assms by (simp add: sdiv_nonneg)
  moreover have "n div 16 < (N + 15) div 16"
    using assms by linarith
  moreover have "int (nat n div 16) = n div 16"
    using assms by (simp add: zdiv_int)
  ultimately show ?thesis
    by linarith
qed

lemma worker_for_coordinate:
  assumes "0 \<le> row" "row < H" "0 \<le> col" "col < W"
  defines "blockIdx \<equiv> \<lparr>dim_x = nat col div 16, dim_y = nat row div 16\<rparr>"
    and "threadIdx \<equiv> \<lparr>dim_x = nat col mod 16, dim_y = nat row mod 16\<rparr>"
  shows "(blockIdx, threadIdx) \<in> set (workers (main_gridDim H W) main_blockDim)"
    and "worker_row blockIdx main_blockDim threadIdx = row"
    and "worker_col blockIdx main_blockDim threadIdx = col"
proof -
  show "(blockIdx, threadIdx) \<in> set (workers (main_gridDim H W) main_blockDim)"
    using assms(1-4)
    by (simp add: in_workers in_indices blockIdx_def threadIdx_def main_gridDim_def
          main_blockDim_def tile_index)
  show "worker_row blockIdx main_blockDim threadIdx = row"
    using assms(1) by (simp add: worker_row_def blockIdx_def threadIdx_def main_blockDim_def)
  show "worker_col blockIdx main_blockDim threadIdx = col"
    using assms(3) by (simp add: worker_col_def blockIdx_def threadIdx_def main_blockDim_def)
qed



subsection \<open>Square matrices\<close>

text \<open>
  When \<open>H = W\<close> the guard of line 71 is the guard of the contract. For an odd filter
  side and buffers of \<open>H * W\<close> and \<open>R * R\<close> elements no load faults, and the kernel
  stores the sum of the contract.
\<close>

lemma for_loop_sum_list:
  fixes t :: "int \<Rightarrow> 'a::monoid_add"
  assumes "\<And>k s. k \<in> set ks \<Longrightarrow> body k s = Inr (s + t k)"
  shows "for_loop body ks s = Inr (s + (\<Sum>k\<leftarrow>ks. t k))"
  using assms
  by (induction ks arbitrary: s) (simp_all add: add.assoc)

text \<open>The indices of the filter are in range for every tap of an odd filter.\<close>

lemma filter_index_in_range:
  fixes R pad i j :: int
  assumes "R = 2 * pad + 1" and "- pad \<le> i" "i \<le> pad" "- pad \<le> j" "j \<le> pad"
  shows "0 \<le> (i + pad) * R + (j + pad)" and "(i + pad) * R + (j + pad) < R * R"
  using index_in_matrix [of "i + pad" R "j + pad" R] assms by simp_all

lemma tap_square:
  fixes input :: "'a::semiring_0 list"
  assumes "int (length input) = N * N" and "int (length filter') = R * R"
    and "R = 2 * pad + 1" and "- pad \<le> i" "i \<le> pad" "- pad \<le> j" "j \<le> pad"
  shows "tap input filter' N N R pad row col i j s =
     Inr (s + (if 0 \<le> row + i \<and> row + i < N \<and> 0 \<le> col + j \<and> col + j < N
               then input ! nat ((row + i) * N + (col + j))
                      * filter' ! nat ((i + pad) * R + (j + pad))
               else 0))"
proof (cases "0 \<le> row + i \<and> row + i < N \<and> 0 \<le> col + j \<and> col + j < N")
  case True
  with index_in_matrix [of "row + i" N "col + j" N] assms(1)
  have "load Input input ((row + i) * N + (col + j))
      = Inr (input ! nat ((row + i) * N + (col + j)))"
    by (simp add: load_def)
  moreover from filter_index_in_range [OF assms(3-7)] assms(2)
  have "load Filter filter' ((i + pad) * R + (j + pad))
      = Inr (filter' ! nat ((i + pad) * R + (j + pad)))"
    by (simp add: load_def)
  ultimately show ?thesis
    using True by (simp add: tap_def Let_def)
next
  case False
  then show ?thesis
    by (auto simp: tap_def Let_def)
qed

lemma conv_sum_square:
  fixes input :: "'a::semiring_0 list"
  assumes "int (length input) = N * N" and "int (length filter') = R * R"
    and "1 \<le> R" and "odd R"
  shows "conv_sum input filter' N N R row col = Inr (spec_conv input filter' N N R row col)"
proof -
  define pad where "pad = R div 2"
  from assms(3,4) have R: "R = 2 * pad + 1" and sdiv: "R sdiv 2 = pad"
    by (auto simp: pad_def sdiv_nonneg elim: oddE)
  let ?tap_value = "\<lambda>i j. if 0 \<le> row + i \<and> row + i < N \<and> 0 \<le> col + j \<and> col + j < N
               then input ! nat ((row + i) * N + (col + j))
                      * filter' ! nat ((i + pad) * R + (j + pad))
               else 0"
  have inner: "for_loop (\<lambda>j. tap input filter' N N R pad row col i j) [- pad..pad] s
      = Inr (s + (\<Sum>j\<leftarrow>[- pad..pad]. ?tap_value i j))"
    if "i \<in> set [- pad..pad]" for i s
    using that
    by (intro for_loop_sum_list) (simp add: tap_square [OF assms(1,2) R])
  have "for_loop (\<lambda>i. for_loop (\<lambda>j. tap input filter' N N R pad row col i j) [- pad..pad])
      [- pad..pad] 0 = Inr (0 + (\<Sum>i\<leftarrow>[- pad..pad]. \<Sum>j\<leftarrow>[- pad..pad]. ?tap_value i j))"
    by (intro for_loop_sum_list inner)
  then show ?thesis
    by (simp add: conv_sum_def spec_conv_def sdiv pad_def [symmetric] Let_def)
qed

lemma conv2d_kernel_square:
  fixes input :: "'a::semiring_0 list"
  assumes "int (length input) = N * N" and "int (length filter') = R * R"
    and "1 \<le> R" and "odd R"
    and "worker_row blockIdx blockDim threadIdx < N"
    and "worker_col blockIdx blockDim threadIdx < N"
  shows "conv2d_kernel blockIdx blockDim threadIdx input filter' N N R =
     Inr (Some (worker_row blockIdx blockDim threadIdx * N + worker_col blockIdx blockDim threadIdx,
       spec_conv input filter' N N R (worker_row blockIdx blockDim threadIdx)
         (worker_col blockIdx blockDim threadIdx)))"
  using assms(5,6) by (simp add: conv2d_kernel_def Let_def conv_sum_square [OF assms(1-4)])

subsection \<open>Two executions of a launch\<close>

lemma store_Inr_iff:
  "store b mem k v = Inr mem' \<longleftrightarrow> 0 \<le> k \<and> k < int (length mem) \<and> mem' = mem[nat k := v]"
  by (auto simp: store_def)

lemma kernel_store_index:
  assumes "conv2d_kernel blockIdx blockDim threadIdx input filter' H W R = Inr (Some (k, v))"
  defines "row \<equiv> worker_row blockIdx blockDim threadIdx"
    and "col \<equiv> worker_col blockIdx blockDim threadIdx"
  shows "0 \<le> row" "row < H" "0 \<le> col" "col < W" "k = row * W + col"
    and "conv_sum input filter' H W R row col = Inr v"
  using assms(1)
  by (auto simp: conv2d_kernel_def Let_def row_def col_def worker_row_def worker_col_def
        split: if_splits sum.splits)

lemma kernel_store_value:
  assumes "conv2d_kernel blockIdx blockDim threadIdx input filter' H W R = Inr (Some (k, v))"
  shows "0 \<le> k" and "k < H * W" and "conv_sum input filter' H W R (k div W) (k mod W) = Inr v"
proof -
  note f = kernel_store_index [OF assms]
  from f(1-5) index_in_matrix show "0 \<le> k" and "k < H * W"
    by simp_all
  from f(3,4,5) have "k div W = worker_row blockIdx blockDim threadIdx"
    and "k mod W = worker_col blockIdx blockDim threadIdx"
    by simp_all
  with f(6) show "conv_sum input filter' H W R (k div W) (k mod W) = Inr v"
    by simp
qed

lemma launch_cells:
  assumes "launch blockDim input filter' H W R s buf = Inr out"
  shows "length out = length buf \<and>
     (\<forall>i<length buf.
       if \<exists>w\<in>set s. \<exists>v. conv2d_kernel (fst w) blockDim (snd w) input filter' H W R
            = Inr (Some (int i, v))
       then conv_sum input filter' H W R (int i div W) (int i mod W) = Inr (out ! i)
       else out ! i = buf ! i)"
  using assms
proof (induction s arbitrary: buf)
  case Nil
  then show ?case by simp
next
  case (Cons w s)
  from Cons.prems obtain buf' where
    step: "run_worker blockDim input filter' H W R w buf = Inr buf'"
    and rest: "launch blockDim input filter' H W R s buf' = Inr out"
    by (auto split: sum.splits)
  from step have same_length: "length buf' = length buf"
    by (auto simp: run_worker_def store_Inr_iff split: sum.splits option.splits)
  note ih = Cons.IH [OF rest]
  have cells: "if \<exists>w\<in>set (w # s). \<exists>v. conv2d_kernel (fst w) blockDim (snd w) input filter' H W R
            = Inr (Some (int i, v))
       then conv_sum input filter' H W R (int i div W) (int i mod W) = Inr (out ! i)
       else out ! i = buf ! i" if i: "i < length buf" for i
  proof -
    let ?writes = "\<lambda>w. \<exists>v. conv2d_kernel (fst w) blockDim (snd w) input filter' H W R
          = Inr (Some (int i, v))"
    let ?cell = "conv_sum input filter' H W R (int i div W) (int i mod W)"
    from ih i same_length
    have ih_i: "if \<exists>w\<in>set s. ?writes w then ?cell = Inr (out ! i) else out ! i = buf' ! i"
      by simp
    show "if \<exists>w\<in>set (w # s). ?writes w then ?cell = Inr (out ! i) else out ! i = buf ! i"
    proof (cases "\<exists>w\<in>set s. ?writes w")
      case True
      with ih_i show ?thesis by auto
    next
      case False
      with ih_i have later: "out ! i = buf' ! i" by simp
      show ?thesis
      proof (cases "?writes w")
        case True
        then obtain v where k: "conv2d_kernel (fst w) blockDim (snd w) input filter' H W R
          = Inr (Some (int i, v))" ..
        with step i have "buf' ! i = v"
          by (simp add: run_worker_def store_Inr_iff)
        with later kernel_store_value(3) [OF k] True show ?thesis
          by auto
      next
        case no: False
        from step no i have "buf' ! i = buf ! i"
          by (auto simp: run_worker_def store_Inr_iff nat_eq_iff
                split: sum.splits option.splits)
        with later no False show ?thesis
          by auto
      qed
    qed
  qed
  from ih same_length have "length out = length buf"
    by simp
  with cells show ?case
    by blast
qed

lemma launch_no_fault:
  assumes "launch blockDim input filter' H W R s buf = Inr out" and "w \<in> set s"
  shows "\<exists>r. conv2d_kernel (fst w) blockDim (snd w) input filter' H W R = Inr r"
  using assms
  by (induction s arbitrary: buf)
     (auto simp: run_worker_def split: sum.splits)

lemma launch_runs:
  assumes "\<forall>w\<in>set s. \<exists>r. conv2d_kernel (fst w) blockDim (snd w) input filter' H W R = Inr r"
    and "int (length buf) = H * W"
  shows "\<exists>out. launch blockDim input filter' H W R s buf = Inr out"
  using assms
proof (induction s arbitrary: buf)
  case Nil
  then show ?case by simp
next
  case (Cons w s)
  from Cons.prems(1) obtain r where
    r: "conv2d_kernel (fst w) blockDim (snd w) input filter' H W R = Inr r"
    by auto
  have "\<exists>buf'. run_worker blockDim input filter' H W R w buf = Inr buf'
      \<and> length buf' = length buf"
  proof (cases r)
    case None
    with r show ?thesis by (simp add: run_worker_def)
  next
    case (Some kv)
    obtain k v where "kv = (k, v)" by (cases kv)
    with r Some kernel_store_value(1,2) [of "fst w" blockDim "snd w" input filter' H W R k v]
      Cons.prems(2)
    show ?thesis
      by (simp add: run_worker_def store_def)
  qed
  then obtain buf' where "run_worker blockDim input filter' H W R w buf = Inr buf'"
    and "length buf' = length buf"
    by blast
  with Cons.IH [of buf'] Cons.prems show ?case
    by simp
qed


lemma cell_coordinate:
  fixes H W :: int
  assumes "0 < W" and "int i < H * W"
  shows "0 \<le> int i div W" "int i div W < H" "0 \<le> int i mod W" "int i mod W < W"
    and "(int i div W) * W + int i mod W = int i"
proof -
  show "0 \<le> int i div W"
    using assms(1) by (simp add: pos_imp_zdiv_nonneg_iff)
  show "int i div W < H"
  proof (rule ccontr)
    assume "\<not> int i div W < H"
    with assms(1) have "H * W \<le> (int i div W) * W"
      by (intro mult_right_mono) auto
    also have "\<dots> \<le> int i"
      using div_mult_mod_eq [of "int i" W] pos_mod_sign [OF assms(1), of "int i"] by linarith
    finally show False
      using assms(2) by simp
  qed
  show "0 \<le> int i mod W" "int i mod W < W"
    using assms(1) by simp_all
  show "(int i div W) * W + int i mod W = int i"
    by simp
qed

lemma launch_written:
  assumes "1 \<le> H" "1 \<le> W"
    and "set s = set (workers (main_gridDim H W) main_blockDim)"
    and "int (length buf) = H * W"
    and "launch main_blockDim input filter' H W R s buf = Inr out"
    and "i < length buf"
  shows "conv_sum input filter' H W R (int i div W) (int i mod W) = Inr (out ! i)"
proof -
  from assms(2,4,6) have W: "0 < W" and i: "int i < H * W"
    by simp_all
  note c = cell_coordinate [OF W i]
  define blockIdx where "blockIdx = \<lparr>dim_x = nat (int i mod W) div 16, dim_y = nat (int i div W) div 16\<rparr>"
  define threadIdx where "threadIdx = \<lparr>dim_x = nat (int i mod W) mod 16, dim_y = nat (int i div W) mod 16\<rparr>"
  from worker_for_coordinate [OF c(1-4)]
  have w: "(blockIdx, threadIdx) \<in> set s"
    and row: "worker_row blockIdx main_blockDim threadIdx = int i div W"
    and col: "worker_col blockIdx main_blockDim threadIdx = int i mod W"
    by (simp_all add: blockIdx_def threadIdx_def assms(3))
  from launch_no_fault [OF assms(5) w] obtain r where
    r: "conv2d_kernel blockIdx main_blockDim threadIdx input filter' H W R = Inr r"
    by auto
  with row col c obtain v where
    "conv2d_kernel blockIdx main_blockDim threadIdx input filter' H W R = Inr (Some (int i, v))"
    by (auto simp: conv2d_kernel_def Let_def split: sum.splits)
  with w have "\<exists>w\<in>set s. \<exists>v. conv2d_kernel (fst w) main_blockDim (snd w) input filter' H W R
      = Inr (Some (int i, v))"
    by force
  with launch_cells [OF assms(5)] assms(6) show ?thesis
    by (simp split: if_splits)
qed

text \<open>
  Executions that stay inside the buffers: whatever the order in which the device runs
  the workers, and whatever the output buffer holds before the launch (\<^verbatim>\<open>cudaMalloc\<close>
  does not clear it), if one execution ends with the output \<open>out\<close> then so does
  every other one.
\<close>

lemma launch_order_and_buffer:
  fixes input :: "'a::{zero,plus,times} list"
  assumes "1 \<le> H" "1 \<le> W"
    and "mset s1 = mset (workers (main_gridDim H W) main_blockDim)"
    and "mset s2 = mset (workers (main_gridDim H W) main_blockDim)"
    and "int (length buf1) = H * W" and "int (length buf2) = H * W"
    and "launch main_blockDim input filter' H W R s1 buf1 = Inr out"
  shows "launch main_blockDim input filter' H W R s2 buf2 = Inr out"
proof -
  from assms(3,4) have s1: "set s1 = set (workers (main_gridDim H W) main_blockDim)"
    and s2: "set s2 = set (workers (main_gridDim H W) main_blockDim)"
    by (auto dest: mset_eq_setD)
  from launch_no_fault [OF assms(7)] s1 s2
  have "\<forall>w\<in>set s2. \<exists>r. conv2d_kernel (fst w) main_blockDim (snd w) input filter' H W R = Inr r"
    by simp
  from launch_runs [OF this assms(6)] obtain out2 where
    out2: "launch main_blockDim input filter' H W R s2 buf2 = Inr out2" ..
  from launch_cells [OF assms(7)] launch_cells [OF out2]
  have len1: "length out = length buf1" and len2: "length out2 = length buf2"
    by simp_all
  from assms(5,6) have bufs: "length buf1 = length buf2"
    by simp
  have "out2 = out"
  proof (rule nth_equalityI)
    show "length out2 = length out"
      using len1 len2 bufs by simp
  next
    fix i assume "i < length out2"
    with len2 bufs have i1: "i < length buf1" and i2: "i < length buf2"
      by simp_all
    from launch_written [OF assms(1,2) s1 assms(5,7) i1]
      launch_written [OF assms(1,2) s2 assms(6) out2 i2]
    show "out2 ! i = out ! i"
      by simp
  qed
  with out2 show ?thesis
    by simp
qed

text \<open>
  C8. Two executions on the same matrix, filter and dimensions produce the same
  output. For the \<open>2 \<times> 1\<close> matrix \<open>[[1], [2]]\<close> and the \<open>3 \<times> 3\<close> filter of ones both
  workers accept the tap \<open>r = 1\<close>, \<open>c = 1\<close>, since \<open>c < H\<close>, and read
  \<open>input[2]\<close>, the float that follows the matrix in the memory of the device: when
  that float is 0 the launch stores \<open>[5, 5]\<close>, and when it is 1 the launch stores
  \<open>[6, 6]\<close>. The output is not a function of the matrix, the filter and the
  dimensions.
\<close>

theorem output_depends_on_memory_past_end:
  "launch main_blockDim ([1, 2] @ [0 :: real]) (replicate 9 1) 2 1 3
     (workers (main_gridDim 2 1) main_blockDim) [0, 0] = Inr [5, 5]
   \<and> launch main_blockDim ([1, 2] @ [1 :: real]) (replicate 9 1) 2 1 3
     (workers (main_gridDim 2 1) main_blockDim) [0, 0] = Inr [6, 6]"
  by code_simp

subsection \<open>Sums of matrices\<close>

lemma for_loop_added:
  assumes "\<And>k a b. added (f k a) (g k b) (h k (a + b))"
  shows "added (for_loop f ks a) (for_loop g ks b) (for_loop h ks (a + b))"
proof (induction ks arbitrary: a b)
  case Nil
  show ?case by (simp add: added_def)
next
  case (Cons k ks)
  from assms [of k a b] show ?case
  proof (unfold added_def, elim disjE exE conjE)
    fix e assume "f k a = Inl e" "g k b = Inl e" "h k (a + b) = Inl e"
    then show "(\<exists>e. for_loop f (k # ks) a = Inl e \<and> for_loop g (k # ks) b = Inl e
          \<and> for_loop h (k # ks) (a + b) = Inl e)
        \<or> (\<exists>a' b'. for_loop f (k # ks) a = Inr a' \<and> for_loop g (k # ks) b = Inr b'
          \<and> for_loop h (k # ks) (a + b) = Inr (a' + b'))"
      by simp
  next
    fix a' b' assume "f k a = Inr a'" "g k b = Inr b'" "h k (a + b) = Inr (a' + b')"
    with Cons.IH [of a' b'] show "(\<exists>e. for_loop f (k # ks) a = Inl e \<and> for_loop g (k # ks) b = Inl e
          \<and> for_loop h (k # ks) (a + b) = Inl e)
        \<or> (\<exists>a' b'. for_loop f (k # ks) a = Inr a' \<and> for_loop g (k # ks) b = Inr b'
          \<and> for_loop h (k # ks) (a + b) = Inr (a' + b'))"
      by (simp add: added_def)
  qed
qed

lemma load_map2:
  assumes "length A = length B"
  shows "load b (map2 (+) A B) k =
     (case load b A k of Inl e \<Rightarrow> Inl e
      | Inr x \<Rightarrow> (case load b B k of Inl e \<Rightarrow> Inl e | Inr y \<Rightarrow> Inr (x + y)))"
proof (cases "0 \<le> k \<and> k < int (length A)")
  case True
  then have "nat k < length A"
    by linarith
  with assms have "map2 (+) A B ! nat k = A ! nat k + B ! nat k"
    by simp
  with True assms show ?thesis
    by (simp add: load_def)
next
  case False
  with assms show ?thesis
    by (auto simp: load_def)
qed

lemma tap_added:
  fixes A B :: "'a::semiring_0 list"
  assumes "length A = length B"
  shows "added (tap A F H W R pad row col i j a) (tap B F H W R pad row col i j b)
     (tap (map2 (+) A B) F H W R pad row col i j (a + b))"
  using assms
  by (auto simp: added_def tap_def Let_def load_map2 load_def algebra_simps split: sum.splits)

lemma conv_sum_added:
  fixes A B :: "'a::semiring_0 list"
  assumes "length A = length B"
  shows "added (conv_sum A F H W R row col) (conv_sum B F H W R row col)
     (conv_sum (map2 (+) A B) F H W R row col)"
proof -
  have "added (conv_sum A F H W R row col) (conv_sum B F H W R row col)
     (for_loop (\<lambda>i. for_loop (\<lambda>j. tap (map2 (+) A B) F H W R (R sdiv 2) row col i j)
        [- (R sdiv 2)..R sdiv 2]) [- (R sdiv 2)..R sdiv 2] (0 + 0))"
    unfolding conv_sum_def Let_def
    by (intro for_loop_added tap_added assms)
  then show ?thesis
    by (simp add: conv_sum_def Let_def)
qed

text \<open>
  Loads that stay inside the lists: for two lists \<open>A\<close> and \<open>B\<close> of the same length and
  one filter, a worker that stores \<open>a\<close> for \<open>A\<close> and \<open>b\<close> for \<open>B\<close> stores \<open>a + b\<close>,
  at the same index, for the elementwise sum of \<open>A\<close> and \<open>B\<close> (over exact arithmetic:
  a semiring), and the worker faults on the sum exactly when it faults on \<open>A\<close>, and
  when it faults on \<open>B\<close>.
\<close>

lemma kernel_added_inside_buffers:
  fixes A B :: "'a::semiring_0 list"
  assumes "length A = length B"
  shows "(\<forall>k a b.
            conv2d_kernel blockIdx blockDim threadIdx A F H W R = Inr (Some (k, a)) \<and>
            conv2d_kernel blockIdx blockDim threadIdx B F H W R = Inr (Some (k, b)) \<longrightarrow>
            conv2d_kernel blockIdx blockDim threadIdx (map2 (+) A B) F H W R = Inr (Some (k, a + b)))
       \<and> (\<forall>e. conv2d_kernel blockIdx blockDim threadIdx (map2 (+) A B) F H W R = Inl e \<longleftrightarrow>
            conv2d_kernel blockIdx blockDim threadIdx A F H W R = Inl e)
       \<and> (\<forall>e. conv2d_kernel blockIdx blockDim threadIdx (map2 (+) A B) F H W R = Inl e \<longleftrightarrow>
            conv2d_kernel blockIdx blockDim threadIdx B F H W R = Inl e)"
  using conv_sum_added [OF assms, of F H W R "worker_row blockIdx blockDim threadIdx"
      "worker_col blockIdx blockDim threadIdx"]
  by (auto simp: conv2d_kernel_def Let_def added_def split: sum.splits)

text \<open>
  C6. The convolution of the sum of two matrices is the sum of their convolutions. For
  the \<open>2 \<times> 1\<close> matrices \<open>A = [[1], [2]]\<close> and \<open>B = [[10], [20]]\<close> and the \<open>3 \<times> 3\<close>
  filter of ones the worker of \<open>(1, 0)\<close> accepts the tap of column 1, since \<open>1 < H\<close>,
  and reads \<open>input[2]\<close>, the float that follows the matrix in the memory of the device.
  When that float is 1 behind each of the three matrices, the worker stores 6 for
  \<open>A\<close>, 51 for \<open>B\<close> and 56 for \<open>A + B\<close>, and \<open>6 + 51 = 57\<close>.
\<close>

theorem sum_of_matrices_past_end:
  "conv2d_kernel \<lparr>dim_x = 0, dim_y = 0\<rparr> main_blockDim \<lparr>dim_x = 0, dim_y = 1\<rparr>
     ([1, 2] @ [1 :: real]) (replicate 9 1) 2 1 3 = Inr (Some (1, 6))
   \<and> conv2d_kernel \<lparr>dim_x = 0, dim_y = 0\<rparr> main_blockDim \<lparr>dim_x = 0, dim_y = 1\<rparr>
     ([10, 20] @ [1 :: real]) (replicate 9 1) 2 1 3 = Inr (Some (1, 51))
   \<and> conv2d_kernel \<lparr>dim_x = 0, dim_y = 0\<rparr> main_blockDim \<lparr>dim_x = 0, dim_y = 1\<rparr>
     (map2 (+) [1, 2] [10, 20] @ [1 :: real]) (replicate 9 1) 2 1 3 = Inr (Some (1, 56))
   \<and> (6 :: real) + 51 \<noteq> 56"
  by (simp add: conv2d_kernel_def worker_row_def worker_col_def main_blockDim_def
        conv_sum_def tap_def load_def signed_divide_int_def upto_rec1)

subsection \<open>The check of the arguments\<close>

text \<open>
  C9. With fewer than two positional arguments \<^verbatim>\<open>main\<close> prints the usage error on
  the standard error stream and returns \<open>-1\<close>, a nonzero exit status, and performs
  none of its stages: no file is read, nothing is allocated, copied or computed.
\<close>

theorem usage_error:
  assumes "length (tl argv) < 2"
  shows "performed (main argv failure) = []
       \<and> stderr (main argv failure) = [''ERROR: number of arguments < 3'']
       \<and> exit_code (main argv failure) = - 1
       \<and> exit_status (main argv failure) \<noteq> 0"
proof -
  from assms have "int (length argv) < 3"
    by (cases argv) auto
  then show ?thesis
    by (simp add: main_def exit_status_def)
qed

theorem usage_error_witness:
  "length (tl [''conv2dV1'', ''input.txt'']) < 2
   \<and> performed (main [''conv2dV1'', ''input.txt''] (\<lambda>s. None)) = []
   \<and> exit_status (main [''conv2dV1'', ''input.txt''] (\<lambda>s. None)) = 255"
proof -
  have few: "length (tl [''conv2dV1'', ''input.txt'']) < 2"
    by simp
  from usage_error [OF few, of "\<lambda>s. None"] few show ?thesis
    by (simp add: exit_status_def)
qed

end
